theory Spec2Isabelle
  imports Main
begin

section \<open>Strings as the script sees them\<close>

text \<open>
  A JavaScript string is a sequence of UTF-16 code units. The model uses \<^typ>\<open>string\<close>,
  read as the code units below 256 (ASCII and Latin-1): every literal of the script and
  every class name, attribute name and attribute value it compares against is in that range.
  Within the range, \<^verbatim>\<open>String.prototype.trim\<close> and the regular expression class
  \<^verbatim>\<open>\s\<close> agree on the white space: TAB, LF, VT, FF, CR, SPACE and NO-BREAK SPACE.
\<close>

definition is_ws :: "char \<Rightarrow> bool" where
  "is_ws c = (of_char c \<in> {9, 10, 11, 12, 13, 32, 160 :: nat})"

text \<open>\<^verbatim>\<open>toLowerCase\<close>: A--Z and the Latin-1 capitals (all of 0xC0--0xDE but the
  multiplication sign 0xD7) move up by 32; every other code unit below 256 stays.\<close>

definition lower_char :: "char \<Rightarrow> char" where
  "lower_char c =
     (let n = (of_char c :: nat)
      in if (65 \<le> n \<and> n \<le> 90) \<or> (192 \<le> n \<and> n \<le> 214) \<or> (216 \<le> n \<and> n \<le> 222)
         then char_of (n + 32) else c)"

definition toLowerCase :: "string \<Rightarrow> string" where
  "toLowerCase s = map lower_char s"

definition trim :: "string \<Rightarrow> string" where
  "trim s = rev (dropWhile is_ws (rev (dropWhile is_ws s)))"

text \<open>\<^verbatim>\<open>s.split(/\s+/)\<close>: the pieces between the maximal runs of white space. The
  empty string gives one empty piece, and white space at either end gives an empty piece
  there, as in JavaScript.\<close>

function split_ws :: "string \<Rightarrow> string list" where
  "split_ws s =
     (let piece = takeWhile (\<lambda>c. \<not> is_ws c) s;
          rest = dropWhile (\<lambda>c. \<not> is_ws c) s
      in if rest = [] then [piece] else piece # split_ws (dropWhile is_ws rest))"
  by pat_completeness auto
termination
proof (relation "measure length")
  show "wf (measure length)" by simp
next
  fix s :: string and piece rest
  assume r: "rest = dropWhile (\<lambda>c. \<not> is_ws c) s" and ne: "rest \<noteq> []"
  from ne obtain c cs where rc: "rest = c # cs" by (cases rest) auto
  from r rc have "dropWhile (\<lambda>c. \<not> is_ws c) s = c # cs" by simp
  then have "is_ws c" by (simp add: dropWhile_eq_Cons_conv)
  then have "length (dropWhile is_ws rest) \<le> length cs"
    using rc by (simp add: length_dropWhile_le)
  moreover have "length rest \<le> length s"
    using r by (simp add: length_dropWhile_le)
  ultimately show "(dropWhile is_ws rest, s) \<in> measure length"
    using rc by simp
qed

declare split_ws.simps [simp del]

text \<open>\<^verbatim>\<open>.filter(Boolean)\<close> on an array of strings drops the empty ones.\<close>

definition filter_Boolean :: "string list \<Rightarrow> string list" where
  "filter_Boolean xs = filter (\<lambda>t. t \<noteq> []) xs"

text \<open>A JavaScript \<^verbatim>\<open>Set\<close> of strings, as the list of its members in insertion
  order: \<^verbatim>\<open>add\<close> of a member already there changes nothing.\<close>

definition set_add :: "string list \<Rightarrow> string \<Rightarrow> string list" where
  "set_add have x = (if x \<in> set have then have else have @ [x])"

definition new_Set :: "string list \<Rightarrow> string list" where
  "new_Set xs = foldl set_add [] xs"

text \<open>\<^verbatim>\<open>Array.prototype.join(' ')\<close>.\<close>

fun join_space :: "string list \<Rightarrow> string" where
  "join_space [] = []"
| "join_space [x] = x"
| "join_space (x # y # ys) = x @ CHR '' '' # join_space (y # ys)"

section \<open>Anchor elements\<close>

text \<open>
  An anchor is its attributes (\<^verbatim>\<open>getAttribute\<close> gives \<^verbatim>\<open>null\<close> for a missing
  one, here \<open>None\<close>), the tokens of its \<^verbatim>\<open>classList\<close> (the script only asks
  \<^verbatim>\<open>contains\<close> and never writes the class), and the listeners the script has added,
  in the order of \<^verbatim>\<open>addEventListener\<close>. Both listeners are closures over the
  element and read its attributes and classes when the event arrives.
\<close>

datatype listener = ClickListener | KeydownListener

record anchor =
  attrs :: "string \<rightharpoonup> string"
  classList :: "string list"
  listeners :: "listener list"

text \<open>\<^verbatim>\<open>a.getAttribute(n) || ''\<close>: a missing attribute reads as the empty string.\<close>

definition attr_or_empty :: "anchor \<Rightarrow> string \<Rightarrow> string" where
  "attr_or_empty a n = (case attrs a n of None \<Rightarrow> [] | Some v \<Rightarrow> v)"

definition setAttribute :: "string \<Rightarrow> string \<Rightarrow> anchor \<Rightarrow> anchor" where
  "setAttribute n v a = a\<lparr>attrs := (attrs a)(n \<mapsto> v)\<rparr>"

definition contains :: "anchor \<Rightarrow> string \<Rightarrow> bool" where
  "contains a c = (c \<in> set (classList a))"

definition INVALID_HREFS :: "string list" where
  "INVALID_HREFS = ['''', ''#'', ''javascript:void(0)'', ''javascript:void(0);'', ''void(0)'']"

definition BUTTONY_CLASSES :: "string list" where
  "BUTTONY_CLASSES =
     [''darkmode_switchbutton'', ''asideSwitch'', ''commentBarrage'', ''console_switchbutton'',
      ''banner-button'', ''totopbtn'', ''randomPost_button'', ''randomPost'', ''site-page'']"

subsection \<open>hardenRel\<close>

definition rel_tokens :: "string \<Rightarrow> string list" where
  "rel_tokens rel = filter_Boolean (split_ws rel)"

definition hardenRel :: "anchor \<Rightarrow> anchor" where
  "hardenRel a =
     (let t = toLowerCase (attr_or_empty a ''target'')
      in if t = ''_blank''
         then (let rel = toLowerCase (attr_or_empty a ''rel'');
                   needed = [''noopener'', ''noreferrer''];
                   have = new_Set (rel_tokens rel);
                   have2 = foldl set_add have needed
               in setAttribute ''rel'' (join_space have2) a)
         else a)"

subsection \<open>makeButtonLike, attachHandler, sanitizeOne\<close>

definition makeButtonLike :: "anchor \<Rightarrow> anchor" where
  "makeButtonLike a =
     setAttribute ''tabindex'' ''0'' (setAttribute ''role'' ''button'' (setAttribute ''href'' ''#'' a))"

text \<open>Each call makes two new function objects, so \<^verbatim>\<open>addEventListener\<close> never finds
  them registered already: both are appended.\<close>

definition attachHandler :: "anchor \<Rightarrow> anchor" where
  "attachHandler a = a\<lparr>listeners := listeners a @ [ClickListener, KeydownListener]\<rparr>"

definition rawHref :: "anchor \<Rightarrow> string" where
  "rawHref a = toLowerCase (trim (attr_or_empty a ''href''))"

text \<open>\<^verbatim>\<open>!!a.getAttribute('onclick')\<close>: a missing attribute and an empty one are both
  false.\<close>

definition hasOnclick :: "anchor \<Rightarrow> bool" where
  "hasOnclick a = (case attrs a ''onclick'' of None \<Rightarrow> False | Some v \<Rightarrow> v \<noteq> [])"

definition isInvalidHref :: "anchor \<Rightarrow> bool" where
  "isInvalidHref a = (rawHref a = [] \<or> rawHref a \<in> set INVALID_HREFS)"

definition isButtony :: "anchor \<Rightarrow> bool" where
  "isButtony a = list_ex (\<lambda>c. contains a c) BUTTONY_CLASSES"

text \<open>The two flags are read before \<^verbatim>\<open>hardenRel\<close> runs; \<^verbatim>\<open>hardenRel\<close> writes
  only \<^verbatim>\<open>rel\<close>, and the class test and the rewrites act on the hardened element.\<close>

definition sanitizeOne :: "anchor \<Rightarrow> anchor" where
  "sanitizeOne a =
     (let invalid = isInvalidHref a;
          onclick = hasOnclick a;
          a1 = hardenRel a
      in if invalid \<or> onclick
         then (if isButtony a1 then attachHandler (makeButtonLike a1)
               else (if invalid then setAttribute ''href'' ''#current'' a1 else a1))
         else a1)"

text \<open>\<^verbatim>\<open>document.querySelectorAll('a').forEach(sanitizeOne)\<close>: the document as the
  list of its anchors in document order; each call touches its own element only.\<close>

definition run_pass :: "anchor list \<Rightarrow> anchor list" where
  "run_pass doc = map sanitizeOne doc"

section \<open>The click and keydown listeners\<close>

text \<open>
  The optional functions of the theme that the click listener probes on \<^verbatim>\<open>window\<close>,
  \<^verbatim>\<open>window.navFn\<close> and \<^verbatim>\<open>window.heo\<close>. A probe such as
  \<^verbatim>\<open>window.heo?.showConsole\<close> is falsy when the namespace or the property is missing
  (\<open>Absent\<close>); a truthy value is then called, and the call either throws (\<open>Throwing\<close>,
  which covers a truthy value that is not callable) or returns (\<open>Succeeding\<close>).
\<close>

datatype ext_fn =
    navFn_switchDarkMode | navFn_switcharMode | heo_switchDarkMode | window_switchDarkMode
  | heo_showConsole | heo_hideConsole
  | window_switchCommentBarrage | heo_toggleCommentBarrage
  | window_toRandomPost

datatype ext_state = Absent | Throwing | Succeeding

text \<open>
  The host: the state of each optional function, whether \<^verbatim>\<open>window.scrollTo\<close> takes
  the options object (where it does not, the call throws and the listener's own
  \<^verbatim>\<open>catch\<close> runs), and whether the assignment to \<^verbatim>\<open>location.href\<close> goes
  through or throws. The other DOM calls of the script (\<^verbatim>\<open>getAttribute\<close>,
  \<^verbatim>\<open>setAttribute\<close>, \<^verbatim>\<open>classList.contains\<close>, \<^verbatim>\<open>preventDefault\<close>, and
  \<^verbatim>\<open>window.scrollTo(0, 0)\<close> with two numbers) behave as the DOM standard says and
  do not throw.
\<close>

record host =
  ext :: "ext_fn \<Rightarrow> ext_state"
  smooth_scroll_ok :: bool
  location_assign_ok :: bool

text \<open>What a listener does to the host, as the list of the operations it invokes, in
  order; an operation that throws is listed, since it was invoked. \<open>FollowLink\<close> is the
  browser's own default action of a click on an anchor with an href.\<close>

datatype effect =
    PreventDefault
  | Call ext_fn
  | ScrollToSmooth
  | ScrollToInstant
  | AssignLocationHref string
  | FollowLink string

datatype completion = Returned | Threw

type_synonym run = "completion \<times> effect list"

definition present :: "host \<Rightarrow> ext_fn \<Rightarrow> bool" where
  "present h f = (ext h f \<noteq> Absent)"

text \<open>Calling \<^verbatim>\<open>undefined\<close> throws a TypeError before anything is invoked.\<close>

definition call :: "host \<Rightarrow> ext_fn \<Rightarrow> run" where
  "call h f =
     (case ext h f of
        Absent \<Rightarrow> (Threw, [])
      | Throwing \<Rightarrow> (Threw, [Call f])
      | Succeeding \<Rightarrow> (Returned, [Call f]))"

text \<open>\<^verbatim>\<open>try { body } catch (_) {}\<close> followed by \<^verbatim>\<open>return;\<close>: whatever the body
  did stays done, and the listener returns.\<close>

definition catch_ignore :: "run \<Rightarrow> run" where
  "catch_ignore r = (Returned, snd r)"

definition darkmode_branch :: "host \<Rightarrow> run" where
  "darkmode_branch h =
     catch_ignore
       (if present h navFn_switchDarkMode then call h navFn_switchDarkMode
        else if present h navFn_switcharMode then call h navFn_switcharMode
        else if present h heo_switchDarkMode then call h heo_switchDarkMode
        else if present h window_switchDarkMode then call h window_switchDarkMode
        else (Returned, []))"

definition asideSwitch_branch :: "host \<Rightarrow> run" where
  "asideSwitch_branch h =
     catch_ignore (if present h heo_showConsole then call h heo_showConsole else (Returned, []))"

definition consoleSwitch_branch :: "host \<Rightarrow> run" where
  "consoleSwitch_branch h =
     catch_ignore
       (if present h heo_showConsole then call h heo_showConsole
        else if present h heo_hideConsole then call h heo_hideConsole
        else (Returned, []))"

definition bannerButton_branch :: "host \<Rightarrow> run" where
  "bannerButton_branch h = (Returned, [])"

definition commentBarrage_branch :: "host \<Rightarrow> run" where
  "commentBarrage_branch h =
     catch_ignore
       (if present h window_switchCommentBarrage then call h window_switchCommentBarrage
        else if present h heo_toggleCommentBarrage then call h heo_toggleCommentBarrage
        else (Returned, []))"

text \<open>\<^verbatim>\<open>try { window.scrollTo({top: 0, behavior: 'smooth'}) } catch (_) { window.scrollTo(0, 0) }\<close>\<close>

definition totop_branch :: "host \<Rightarrow> run" where
  "totop_branch h =
     (if smooth_scroll_ok h then (Returned, [ScrollToSmooth])
      else (Returned, [ScrollToSmooth, ScrollToInstant]))"

text \<open>The assignment to \<^verbatim>\<open>location.href\<close> stands inside the \<^verbatim>\<open>try\<close> block, after
  the probe of \<^verbatim>\<open>window.toRandomPost\<close>.\<close>

definition randomPost_branch :: "host \<Rightarrow> run" where
  "randomPost_branch h =
     catch_ignore
       (if present h window_toRandomPost then call h window_toRandomPost
        else (if location_assign_ok h then Returned else Threw,
              [AssignLocationHref ''/archives/'']))"

definition sitePage_branch :: "host \<Rightarrow> run" where
  "sitePage_branch h = (Returned, [])"

definition click_handler :: "host \<Rightarrow> anchor \<Rightarrow> run" where
  "click_handler h a =
     (let pd = (if attr_or_empty a ''href'' = ''#'' then [PreventDefault] else []);
          r = (if contains a ''darkmode_switchbutton'' then darkmode_branch h
               else if contains a ''asideSwitch'' then asideSwitch_branch h
               else if contains a ''console_switchbutton'' then consoleSwitch_branch h
               else if contains a ''banner-button'' then bannerButton_branch h
               else if contains a ''commentBarrage'' then commentBarrage_branch h
               else if contains a ''totopbtn'' then totop_branch h
               else if contains a ''randomPost'' \<or> contains a ''randomPost_button''
                 then randomPost_branch h
               else if contains a ''site-page'' then sitePage_branch h
               else (Returned, []))
      in (fst r, pd @ snd r))"

text \<open>
  A click on the element, as the browser dispatches it: every click listener the script
  added runs, in the order added (an exception in one is reported and does not stop the
  next); then, unless a listener called \<^verbatim>\<open>preventDefault\<close>, the anchor's own default
  action follows its href. Listeners of the page itself and an inline \<^verbatim>\<open>onclick\<close>
  are outside the script and are not part of the trace.
\<close>

definition default_action :: "anchor \<Rightarrow> effect list" where
  "default_action a = (case attrs a ''href'' of None \<Rightarrow> [] | Some u \<Rightarrow> [FollowLink u])"

definition dispatch_click :: "host \<Rightarrow> anchor \<Rightarrow> effect list" where
  "dispatch_click h a =
     (let tr = concat (map (\<lambda>l. snd (click_handler h a))
                         (filter (\<lambda>l. l = ClickListener) (listeners a)))
      in if PreventDefault \<in> set tr then tr else tr @ default_action a)"

text \<open>The keydown listener: on Enter, with the href still the synthetic \<^verbatim>\<open>#\<close>,
  \<^verbatim>\<open>a.click()\<close> dispatches a click.\<close>

definition keydown_handler :: "host \<Rightarrow> anchor \<Rightarrow> string \<Rightarrow> effect list" where
  "keydown_handler h a key =
     (if key = ''Enter'' \<and> attr_or_empty a ''href'' = ''#'' then dispatch_click h a else [])"

section \<open>The dispatch order as the specification words it\<close>

text \<open>The behaviour tags in their priority order, the class names that carry each tag,
  and the rule that the first tag in that order which the class list matches decides the
  branch. These follow the specification's wording, to be compared with
  \<^const>\<open>click_handler\<close>.\<close>

datatype BehaviorTag =
  darkmode | asideSwitch | consoleSwitch | bannerButton | commentBarrage | totop
  | randomPost | sitePage

definition priority_order :: "BehaviorTag list" where
  "priority_order =
     [darkmode, asideSwitch, consoleSwitch, bannerButton, commentBarrage, totop,
      randomPost, sitePage]"

fun tag_classes :: "BehaviorTag \<Rightarrow> string list" where
  "tag_classes darkmode = [''darkmode_switchbutton'']"
| "tag_classes asideSwitch = [''asideSwitch'']"
| "tag_classes consoleSwitch = [''console_switchbutton'']"
| "tag_classes bannerButton = [''banner-button'']"
| "tag_classes commentBarrage = [''commentBarrage'']"
| "tag_classes totop = [''totopbtn'']"
| "tag_classes randomPost = [''randomPost'', ''randomPost_button'']"
| "tag_classes sitePage = [''site-page'']"

definition matches_tag :: "anchor \<Rightarrow> BehaviorTag \<Rightarrow> bool" where
  "matches_tag a t = list_ex (\<lambda>c. contains a c) (tag_classes t)"

definition matching_tags :: "anchor \<Rightarrow> BehaviorTag list" where
  "matching_tags a = filter (matches_tag a) priority_order"

definition first_matching_tag :: "anchor \<Rightarrow> BehaviorTag option" where
  "first_matching_tag a = find (matches_tag a) priority_order"

fun branch_of :: "BehaviorTag \<Rightarrow> host \<Rightarrow> run" where
  "branch_of darkmode = darkmode_branch"
| "branch_of asideSwitch = asideSwitch_branch"
| "branch_of consoleSwitch = consoleSwitch_branch"
| "branch_of bannerButton = bannerButton_branch"
| "branch_of commentBarrage = commentBarrage_branch"
| "branch_of totop = totop_branch"
| "branch_of randomPost = randomPost_branch"
| "branch_of sitePage = sitePage_branch"

definition first_match_dispatch :: "host \<Rightarrow> anchor \<Rightarrow> run" where
  "first_match_dispatch h a =
     (let pd = (if attr_or_empty a ''href'' = ''#'' then [PreventDefault] else []);
          r = (case first_matching_tag a of None \<Rightarrow> (Returned, []) | Some t \<Rightarrow> branch_of t h)
      in (fst r, pd @ snd r))"

section \<open>Auxiliary notions for the proofs\<close>

text \<open>The string \<^const>\<open>hardenRel\<close> writes to \<^verbatim>\<open>rel\<close>, as a function of the
  value it read there.\<close>

definition hardened_rel :: "string \<Rightarrow> string" where
  "hardened_rel r =
     join_space (foldl set_add (new_Set (rel_tokens (toLowerCase r))) [''noopener'', ''noreferrer''])"

text \<open>A token as \<^const>\<open>rel_tokens\<close> returns it: not empty, and free of white space.\<close>

definition clean_token :: "string \<Rightarrow> bool" where
  "clean_token t = (t \<noteq> [] \<and> list_all (\<lambda>c. \<not> is_ws c) t)"

section \<open>Concrete anchors and hosts\<close>

text \<open>Anchors as they stand in a page before the script runs, each with the markup it
  models, and three hosts. They are the inputs at which the theorems below are evaluated.\<close>

text \<open>\<^verbatim>\<open><a class="site-page" href="/about/">\<close>\<close>

definition ex_sitepage_link :: anchor where
  "ex_sitepage_link =
     \<lparr>attrs = [''href'' \<mapsto> ''/about/''], classList = [''site-page''], listeners = []\<rparr>"

text \<open>\<^verbatim>\<open><a class="randomPost" href="">\<close>\<close>

definition ex_random :: anchor where
  "ex_random = \<lparr>attrs = [''href'' \<mapsto> ''''], classList = [''randomPost''], listeners = []\<rparr>"

text \<open>\<^verbatim>\<open><a class="menu randomPost_button" href="javascript:void(0)">\<close>\<close>

definition ex_random_button :: anchor where
  "ex_random_button =
     \<lparr>attrs = [''href'' \<mapsto> ''javascript:void(0)''], classList = [''menu'', ''randomPost_button''],
      listeners = []\<rparr>"

text \<open>\<^verbatim>\<open><a class="darkmode_switchbutton" href="javascript:void(0);">\<close>\<close>

definition ex_darkmode :: anchor where
  "ex_darkmode =
     \<lparr>attrs = [''href'' \<mapsto> ''javascript:void(0);''], classList = [''darkmode_switchbutton''],
      listeners = []\<rparr>"

text \<open>\<^verbatim>\<open><a class="totopbtn darkmode_switchbutton" href="#">\<close>\<close>

definition ex_top_dark :: anchor where
  "ex_top_dark =
     \<lparr>attrs = [''href'' \<mapsto> ''#''], classList = [''totopbtn'', ''darkmode_switchbutton''],
      listeners = []\<rparr>"

text \<open>\<^verbatim>\<open><a onclick="go()">\<close>\<close>

definition ex_onclick_nohref :: anchor where
  "ex_onclick_nohref = \<lparr>attrs = [''onclick'' \<mapsto> ''go()''], classList = [], listeners = []\<rparr>"

text \<open>\<^verbatim>\<open><a class="more" href="/posts/1" onclick="track()">\<close>\<close>

definition ex_onclick_link :: anchor where
  "ex_onclick_link =
     \<lparr>attrs = [''href'' \<mapsto> ''/posts/1'', ''onclick'' \<mapsto> ''track()''], classList = [''more''],
      listeners = []\<rparr>"

text \<open>\<^verbatim>\<open><a class="nav-link" href="  JavaScript:Void(0); ">\<close>\<close>

definition ex_plain_void :: anchor where
  "ex_plain_void =
     \<lparr>attrs = [''href'' \<mapsto> ''  JavaScript:Void(0); ''], classList = [''nav-link''],
      listeners = []\<rparr>"

text \<open>\<^verbatim>\<open><a href="/posts/1">\<close>\<close>

definition ex_post_link :: anchor where
  "ex_post_link = \<lparr>attrs = [''href'' \<mapsto> ''/posts/1''], classList = [], listeners = []\<rparr>"

text \<open>\<^verbatim>\<open><a href="https://example.org/" target="_blank" rel="NoFollow">\<close>\<close>

definition ex_blank_nofollow :: anchor where
  "ex_blank_nofollow =
     \<lparr>attrs = [''href'' \<mapsto> ''https://example.org/'', ''target'' \<mapsto> ''_blank'',
               ''rel'' \<mapsto> ''NoFollow''],
      classList = [], listeners = []\<rparr>"

text \<open>\<^verbatim>\<open><a href="https://example.org/" target="_BLANK" rel="noopener">\<close>\<close>

definition ex_blank_noopener :: anchor where
  "ex_blank_noopener =
     \<lparr>attrs = [''href'' \<mapsto> ''https://example.org/'', ''target'' \<mapsto> ''_BLANK'',
               ''rel'' \<mapsto> ''noopener''],
      classList = [], listeners = []\<rparr>"

text \<open>A host with none of the optional functions.\<close>

definition host_bare :: host where
  "host_bare = \<lparr>ext = (\<lambda>f. Absent), smooth_scroll_ok = True, location_assign_ok = True\<rparr>"

text \<open>The same host, where the assignment to \<^verbatim>\<open>location.href\<close> throws.\<close>

definition host_no_navigation :: host where
  "host_no_navigation =
     \<lparr>ext = (\<lambda>f. Absent), smooth_scroll_ok = True, location_assign_ok = False\<rparr>"

text \<open>A host whose theme has \<^verbatim>\<open>navFn.switchDarkMode\<close>, and a
  \<^verbatim>\<open>toRandomPost\<close> that throws; its \<^verbatim>\<open>scrollTo\<close> does not take the options
  object.\<close>

definition host_theme :: host where
  "host_theme =
     \<lparr>ext = (\<lambda>f. if f = navFn_switchDarkMode then Succeeding
                  else if f = window_toRandomPost then Throwing else Absent),
      smooth_scroll_ok = False, location_assign_ok = True\<rparr>"

section \<open>Auxiliary lemmas\<close>

subsection \<open>Insertion-ordered sets\<close>

lemma set_foldl_set_add: "set (foldl set_add acc xs) = set acc \<union> set xs"
  by (induction xs arbitrary: acc) (auto simp: set_add_def)

lemma distinct_foldl_set_add: "distinct acc \<Longrightarrow> distinct (foldl set_add acc xs)"
  by (induction xs arbitrary: acc) (auto simp: set_add_def)

lemma foldl_set_add_fresh: "distinct (acc @ xs) \<Longrightarrow> foldl set_add acc xs = acc @ xs"
  by (induction xs arbitrary: acc) (auto simp: set_add_def)

lemma foldl_set_add_known: "set xs \<subseteq> set acc \<Longrightarrow> foldl set_add acc xs = acc"
  by (induction xs arbitrary: acc) (auto simp: set_add_def)

lemma set_new_Set: "set (new_Set xs) = set xs"
  by (simp only: new_Set_def set_foldl_set_add) simp

subsection \<open>Lower case and white space\<close>

lemma of_char_lower_char:
  "(of_char (lower_char c) :: nat) =
     (let n = (of_char c :: nat)
      in if (65 \<le> n \<and> n \<le> 90) \<or> (192 \<le> n \<and> n \<le> 214) \<or> (216 \<le> n \<and> n \<le> 222)
         then n + 32 else n)"
  by (simp add: lower_char_def Let_def)

lemma is_ws_lower_char: "is_ws (lower_char c) = is_ws c"
  unfolding is_ws_def of_char_lower_char Let_def by auto

lemma lower_char_idem: "lower_char (lower_char c) = lower_char c"
proof -
  have "(of_char (lower_char (lower_char c)) :: nat) = of_char (lower_char c)"
    unfolding of_char_lower_char [of "lower_char c"] unfolding of_char_lower_char [of c] Let_def
    by auto
  then show ?thesis by simp
qed

lemma toLowerCase_idem: "toLowerCase (toLowerCase s) = toLowerCase s"
  by (simp add: toLowerCase_def lower_char_idem)

lemma is_ws_space: "is_ws CHR '' ''"
  by (simp add: is_ws_def)

lemma lower_char_space: "lower_char CHR '' '' = CHR '' ''"
  by (simp add: lower_char_def)

subsection \<open>Splitting and joining\<close>

lemma split_ws_last:
  assumes "dropWhile (\<lambda>c. \<not> is_ws c) s = []"
  shows "split_ws s = [takeWhile (\<lambda>c. \<not> is_ws c) s]"
proof -
  have "split_ws s =
      (let piece = takeWhile (\<lambda>c. \<not> is_ws c) s;
           rest = dropWhile (\<lambda>c. \<not> is_ws c) s
       in if rest = [] then [piece] else piece # split_ws (dropWhile is_ws rest))"
    by (rule split_ws.simps)
  with assms show ?thesis by (simp only: Let_def refl if_True)
qed

lemma split_ws_more:
  assumes "dropWhile (\<lambda>c. \<not> is_ws c) s \<noteq> []"
  shows "split_ws s = takeWhile (\<lambda>c. \<not> is_ws c) s
                # split_ws (dropWhile is_ws (dropWhile (\<lambda>c. \<not> is_ws c) s))"
proof -
  have "split_ws s =
      (let piece = takeWhile (\<lambda>c. \<not> is_ws c) s;
           rest = dropWhile (\<lambda>c. \<not> is_ws c) s
       in if rest = [] then [piece] else piece # split_ws (dropWhile is_ws rest))"
    by (rule split_ws.simps)
  with assms show ?thesis by (simp only: Let_def if_False)
qed

lemma split_ws_pieces:
  "t \<in> set (split_ws s) \<Longrightarrow> list_all (\<lambda>c. \<not> is_ws c) t \<and> set t \<subseteq> set s"
proof (induction s arbitrary: t rule: split_ws.induct)
  case (1 s)
  let ?piece = "takeWhile (\<lambda>c. \<not> is_ws c) s"
  let ?rest = "dropWhile (\<lambda>c. \<not> is_ws c) s"
  have piece: "list_all (\<lambda>c. \<not> is_ws c) ?piece \<and> set ?piece \<subseteq> set s"
    by (auto simp: list_all_iff dest: set_takeWhileD)
  show ?case
  proof (cases "?rest = []")
    case True
    then have "split_ws s = [?piece]" by (rule split_ws_last)
    with "1.prems" piece show ?thesis by simp
  next
    case False
    then have "split_ws s = ?piece # split_ws (dropWhile is_ws ?rest)"
      by (rule split_ws_more)
    with "1.prems" have "t = ?piece \<or> t \<in> set (split_ws (dropWhile is_ws ?rest))"
      by simp
    then show ?thesis
    proof
      assume "t = ?piece" with piece show ?thesis by simp
    next
      assume "t \<in> set (split_ws (dropWhile is_ws ?rest))"
      with "1.IH" [OF refl refl False]
      have "list_all (\<lambda>c. \<not> is_ws c) t \<and> set t \<subseteq> set (dropWhile is_ws ?rest)"
        by simp
      moreover have "set (dropWhile is_ws ?rest) \<subseteq> set s"
        by (meson set_dropWhileD subsetI)
      ultimately show ?thesis by blast
    qed
  qed
qed

lemma split_ws_map_lower: "split_ws (map lower_char s) = map (map lower_char) (split_ws s)"
proof (induction s rule: split_ws.induct)
  case (1 s)
  let ?piece = "takeWhile (\<lambda>c. \<not> is_ws c) s"
  let ?rest = "dropWhile (\<lambda>c. \<not> is_ws c) s"
  have tw: "takeWhile (\<lambda>c. \<not> is_ws c) (map lower_char s) = map lower_char ?piece"
    by (simp add: takeWhile_map comp_def is_ws_lower_char)
  have dw: "dropWhile (\<lambda>c. \<not> is_ws c) (map lower_char s) = map lower_char ?rest"
    by (simp add: dropWhile_map comp_def is_ws_lower_char)
  have dw2: "dropWhile is_ws (map lower_char ?rest) = map lower_char (dropWhile is_ws ?rest)"
    by (simp add: dropWhile_map comp_def is_ws_lower_char)
  show ?case
  proof (cases "?rest = []")
    case True
    then have "split_ws s = [?piece]" by (rule split_ws_last)
    moreover from True have "split_ws (map lower_char s) = [map lower_char ?piece]"
      using split_ws_last [of "map lower_char s"] by (simp only: tw dw) simp
    ultimately show ?thesis by simp
  next
    case False
    then have l: "split_ws s = ?piece # split_ws (dropWhile is_ws ?rest)"
      by (rule split_ws_more)
    from False have "map lower_char ?rest \<noteq> []" by simp
    then have r: "split_ws (map lower_char s) =
        map lower_char ?piece # split_ws (map lower_char (dropWhile is_ws ?rest))"
      using split_ws_more [of "map lower_char s"] by (simp only: tw dw dw2) simp
    from "1.IH" [OF refl refl False] l r show ?thesis by simp
  qed
qed

lemma split_ws_no_ws: "list_all (\<lambda>c. \<not> is_ws c) t \<Longrightarrow> split_ws t = [t]"
  using split_ws_last [of t] by (simp add: list_all_iff)

lemma split_ws_token_space:
  assumes "list_all (\<lambda>c. \<not> is_ws c) t"
  shows "split_ws (t @ CHR '' '' # s) = t # split_ws (dropWhile is_ws s)"
proof -
  have tw: "takeWhile (\<lambda>c. \<not> is_ws c) (t @ CHR '' '' # s) = t"
    using assms by (simp add: list_all_iff is_ws_space)
  have dw: "dropWhile (\<lambda>c. \<not> is_ws c) (t @ CHR '' '' # s) = CHR '' '' # s"
    using assms by (simp add: list_all_iff is_ws_space)
  show ?thesis
    using split_ws_more [of "t @ CHR '' '' # s"] by (simp add: tw dw is_ws_space)
qed

lemma join_space_starts_clean:
  "clean_token y \<Longrightarrow> dropWhile is_ws (join_space (y # ys)) = join_space (y # ys)"
  by (cases y; cases ys) (simp_all add: clean_token_def)

lemma split_ws_join_space:
  "list_all clean_token ts \<Longrightarrow> ts \<noteq> [] \<Longrightarrow> split_ws (join_space ts) = ts"
proof (induction ts rule: join_space.induct)
  case 1
  then show ?case by simp
next
  case (2 x)
  then show ?case by (simp add: clean_token_def split_ws_no_ws)
next
  case (3 x y ys)
  then have "split_ws (join_space (y # ys)) = y # ys" by simp
  moreover have "dropWhile is_ws (join_space (y # ys)) = join_space (y # ys)"
    using "3.prems" by (simp add: join_space_starts_clean)
  moreover have "list_all (\<lambda>c. \<not> is_ws c) x"
    using "3.prems" by (simp add: clean_token_def)
  ultimately show ?case
    by (simp add: split_ws_token_space)
qed

lemma rel_tokens_join_space:
  assumes "list_all clean_token ts"
  shows "rel_tokens (join_space ts) = ts"
proof (cases ts)
  case Nil
  then show ?thesis
    by (simp add: rel_tokens_def filter_Boolean_def split_ws_no_ws)
next
  case (Cons t ts')
  with assms have "split_ws (join_space ts) = ts" by (simp add: split_ws_join_space)
  moreover have "filter (\<lambda>t. t \<noteq> []) ts = ts"
    using assms by (simp add: list_all_iff clean_token_def)
  ultimately show ?thesis by (simp add: rel_tokens_def filter_Boolean_def)
qed

lemma rel_tokens_clean: "list_all clean_token (rel_tokens s)"
proof -
  have "clean_token t" if "t \<in> set (rel_tokens s)" for t
  proof -
    from that have "t \<in> set (split_ws s)" and "t \<noteq> []"
      by (simp_all add: rel_tokens_def filter_Boolean_def)
    then show ?thesis
      using split_ws_pieces [of t s] by (simp add: clean_token_def)
  qed
  then show ?thesis by (simp add: list_all_iff)
qed

lemma rel_tokens_subset: "t \<in> set (rel_tokens s) \<Longrightarrow> set t \<subseteq> set s"
  using split_ws_pieces [of t s] by (simp add: rel_tokens_def filter_Boolean_def)

lemma rel_tokens_toLowerCase:
  "rel_tokens (toLowerCase s) = map toLowerCase (rel_tokens s)"
proof -
  have "filter (\<lambda>t. t \<noteq> []) (map (map lower_char) xs) = map (map lower_char) (filter (\<lambda>t. t \<noteq> []) xs)"
    for xs :: "string list"
    by (induction xs) auto
  then show ?thesis
    by (simp add: rel_tokens_def filter_Boolean_def toLowerCase_def [abs_def] split_ws_map_lower)
qed

lemma toLowerCase_join_space:
  "toLowerCase (join_space ts) = join_space (map toLowerCase ts)"
  by (induction ts rule: join_space.induct) (simp_all add: toLowerCase_def lower_char_space)

lemma clean_noopener: "clean_token ''noopener''"
  by (simp add: clean_token_def is_ws_def)

lemma clean_noreferrer: "clean_token ''noreferrer''"
  by (simp add: clean_token_def is_ws_def)

lemma lower_noopener: "toLowerCase ''noopener'' = ''noopener''"
  by code_simp

lemma lower_noreferrer: "toLowerCase ''noreferrer'' = ''noreferrer''"
  by code_simp

subsection \<open>The value written to rel\<close>

lemma hardened_tokens:
  "rel_tokens (hardened_rel r) =
     foldl set_add (new_Set (rel_tokens (toLowerCase r))) [''noopener'', ''noreferrer'']"
proof -
  have "list_all clean_token
          (foldl set_add (new_Set (rel_tokens (toLowerCase r))) [''noopener'', ''noreferrer''])"
    using rel_tokens_clean [of "toLowerCase r"]
    by (simp add: list_all_iff set_foldl_set_add set_new_Set clean_noopener clean_noreferrer del: foldl.simps)
  then show ?thesis
    by (simp only: hardened_rel_def rel_tokens_join_space)
qed

lemma set_hardened_tokens:
  "set (rel_tokens (hardened_rel r)) =
     set (rel_tokens (toLowerCase r)) \<union> {''noopener'', ''noreferrer''}"
  by (simp only: hardened_tokens set_foldl_set_add set_new_Set) simp

lemma distinct_hardened_tokens: "distinct (rel_tokens (hardened_rel r))"
  by (simp only: hardened_tokens new_Set_def) (simp add: distinct_foldl_set_add del: foldl.simps)

lemma toLowerCase_hardened: "toLowerCase (hardened_rel r) = hardened_rel r"
proof -
  let ?ts = "foldl set_add (new_Set (rel_tokens (toLowerCase r))) [''noopener'', ''noreferrer'']"
  have mem: "set ?ts = set (rel_tokens (toLowerCase r)) \<union> set [''noopener'', ''noreferrer'']"
    by (simp only: set_foldl_set_add set_new_Set)
  have "toLowerCase t = t" if "t \<in> set ?ts" for t
  proof -
    from that have "t \<in> set (rel_tokens (toLowerCase r)) \<or> t \<in> set [''noopener'', ''noreferrer'']"
      by (simp only: mem Un_iff)
    then show ?thesis
    proof
      assume "t \<in> set (rel_tokens (toLowerCase r))"
      then have "t \<in> toLowerCase ` set (rel_tokens r)"
        by (simp only: rel_tokens_toLowerCase set_map)
      then obtain u where "t = toLowerCase u" by blast
      then show ?thesis by (simp only: toLowerCase_idem)
    next
      assume "t \<in> set [''noopener'', ''noreferrer'']"
      then have "t = ''noopener'' \<or> t = ''noreferrer''" by simp
      then show ?thesis using lower_noopener lower_noreferrer by blast
    qed
  qed
  then have "map toLowerCase ?ts = ?ts" by (simp only: map_idI)
  then show ?thesis
    by (simp only: hardened_rel_def toLowerCase_join_space)
qed

lemma hardened_rel_idem: "hardened_rel (hardened_rel r) = hardened_rel r"
proof -
  let ?ts = "rel_tokens (hardened_rel r)"
  have d: "distinct ?ts" by (rule distinct_hardened_tokens)
  have n: "set [''noopener'', ''noreferrer''] \<subseteq> set ?ts"
    by (simp add: set_hardened_tokens)
  have "new_Set ?ts = ?ts"
    using d foldl_set_add_fresh [of "[]" ?ts] by (simp add: new_Set_def)
  then have "foldl set_add (new_Set ?ts) [''noopener'', ''noreferrer''] = ?ts"
    using n by (simp only: foldl_set_add_known)
  then have "hardened_rel (hardened_rel r) = join_space ?ts"
    by (simp only: hardened_rel_def [of "hardened_rel r"] toLowerCase_hardened)
  also have "\<dots> = hardened_rel r"
    by (simp only: hardened_tokens) (simp only: hardened_rel_def)
  finally show ?thesis .
qed

subsection \<open>Attribute bookkeeping\<close>

lemma attrs_setAttribute: "attrs (setAttribute n v a) m = (if m = n then Some v else attrs a m)"
  by (simp add: setAttribute_def)

lemma classList_setAttribute: "classList (setAttribute n v a) = classList a"
  by (simp add: setAttribute_def)

lemma listeners_setAttribute: "listeners (setAttribute n v a) = listeners a"
  by (simp add: setAttribute_def)

lemma setAttribute_same: "attrs a n = Some v \<Longrightarrow> setAttribute n v a = a"
  by (simp add: setAttribute_def map_upd_triv)

lemma hardenRel_eq:
  "hardenRel a =
     (if toLowerCase (attr_or_empty a ''target'') = ''_blank''
      then setAttribute ''rel'' (hardened_rel (attr_or_empty a ''rel'')) a else a)"
  by (simp add: hardenRel_def hardened_rel_def Let_def)

lemma attrs_hardenRel_other: "n \<noteq> ''rel'' \<Longrightarrow> attrs (hardenRel a) n = attrs a n"
  by (simp add: hardenRel_eq attrs_setAttribute)

lemma classList_hardenRel: "classList (hardenRel a) = classList a"
  by (simp add: hardenRel_eq classList_setAttribute)

lemma listeners_hardenRel: "listeners (hardenRel a) = listeners a"
  by (simp add: hardenRel_eq listeners_setAttribute)

lemma isButtony_classList: "classList b = classList a \<Longrightarrow> isButtony b = isButtony a"
  by (simp add: isButtony_def contains_def)

lemma isButtony_hardenRel: "isButtony (hardenRel a) = isButtony a"
  by (rule isButtony_classList) (rule classList_hardenRel)

lemma attrs_makeButtonLike:
  "attrs (makeButtonLike a) n =
     (if n = ''tabindex'' then Some ''0'' else if n = ''role'' then Some ''button''
      else if n = ''href'' then Some ''#'' else attrs a n)"
  by (simp add: makeButtonLike_def attrs_setAttribute)

lemma classList_makeButtonLike: "classList (makeButtonLike a) = classList a"
  by (simp add: makeButtonLike_def classList_setAttribute)

lemma listeners_makeButtonLike: "listeners (makeButtonLike a) = listeners a"
  by (simp add: makeButtonLike_def listeners_setAttribute)

lemma makeButtonLike_same:
  assumes "attrs a ''href'' = Some ''#''" "attrs a ''role'' = Some ''button''"
    "attrs a ''tabindex'' = Some ''0''"
  shows "makeButtonLike a = a"
  using assms by (simp add: makeButtonLike_def setAttribute_same)

lemma attrs_attachHandler: "attrs (attachHandler a) = attrs a"
  by (simp add: attachHandler_def)

lemma classList_attachHandler: "classList (attachHandler a) = classList a"
  by (simp add: attachHandler_def)

lemma listeners_attachHandler:
  "listeners (attachHandler a) = listeners a @ [ClickListener, KeydownListener]"
  by (simp add: attachHandler_def)

lemma classList_sanitizeOne: "classList (sanitizeOne a) = classList a"
  by (simp add: sanitizeOne_def Let_def classList_attachHandler classList_makeButtonLike
      classList_setAttribute classList_hardenRel)

lemma sanitizeOne_cases:
  "sanitizeOne a =
     (if isInvalidHref a \<or> hasOnclick a
      then (if isButtony a then attachHandler (makeButtonLike (hardenRel a))
            else if isInvalidHref a then setAttribute ''href'' ''#current'' (hardenRel a)
            else hardenRel a)
      else hardenRel a)"
  by (simp add: sanitizeOne_def Let_def isButtony_hardenRel)

lemma attrs_sanitizeOne_rel: "attrs (sanitizeOne a) ''rel'' = attrs (hardenRel a) ''rel''"
  by (simp add: sanitizeOne_cases attrs_attachHandler attrs_makeButtonLike attrs_setAttribute)

lemma attrs_sanitizeOne_target: "attrs (sanitizeOne a) ''target'' = attrs a ''target''"
  by (simp add: sanitizeOne_cases attrs_attachHandler attrs_makeButtonLike attrs_setAttribute
      attrs_hardenRel_other)

lemma attr_or_empty_cong: "attrs b n = attrs a n \<Longrightarrow> attr_or_empty b n = attr_or_empty a n"
  by (simp add: attr_or_empty_def)

lemma hasOnclick_cong: "attrs b ''onclick'' = attrs a ''onclick'' \<Longrightarrow> hasOnclick b = hasOnclick a"
  by (simp add: hasOnclick_def)

lemma isInvalidHref_cong: "attrs b ''href'' = attrs a ''href'' \<Longrightarrow> isInvalidHref b = isInvalidHref a"
  by (simp add: isInvalidHref_def rawHref_def attr_or_empty_def)

lemma isInvalidHref_hash: "attrs a ''href'' = Some ''#'' \<Longrightarrow> isInvalidHref a"
proof -
  assume "attrs a ''href'' = Some ''#''"
  then have "rawHref a = toLowerCase (trim ''#'')" by (simp add: rawHref_def attr_or_empty_def)
  also have "\<dots> = ''#''" by code_simp
  finally show ?thesis by (simp add: isInvalidHref_def INVALID_HREFS_def)
qed

lemma isInvalidHref_current: "attrs a ''href'' = Some ''#current'' \<Longrightarrow> \<not> isInvalidHref a"
proof -
  assume "attrs a ''href'' = Some ''#current''"
  then have "rawHref a = toLowerCase (trim ''#current'')"
    by (simp add: rawHref_def attr_or_empty_def)
  also have "\<dots> = ''#current''" by code_simp
  finally show ?thesis by (simp add: isInvalidHref_def INVALID_HREFS_def)
qed

subsection \<open>Hardening is stable\<close>

lemma hardenRel_fixed:
  assumes t: "attrs b ''target'' = attrs (hardenRel a) ''target''"
    and r: "attrs b ''rel'' = attrs (hardenRel a) ''rel''"
  shows "hardenRel b = b"
proof (cases "toLowerCase (attr_or_empty a ''target'') = ''_blank''")
  case True
  from t have tb: "attr_or_empty b ''target'' = attr_or_empty a ''target''"
    by (simp add: attr_or_empty_def attrs_hardenRel_other)
  from r True have rb: "attrs b ''rel'' = Some (hardened_rel (attr_or_empty a ''rel''))"
    by (simp add: hardenRel_eq attrs_setAttribute)
  then have "attr_or_empty b ''rel'' = hardened_rel (attr_or_empty a ''rel'')"
    by (simp add: attr_or_empty_def)
  then have "hardened_rel (attr_or_empty b ''rel'') = hardened_rel (attr_or_empty a ''rel'')"
    by (simp only: hardened_rel_idem)
  with True tb rb show ?thesis
    by (simp only: hardenRel_eq [of b] if_True setAttribute_same if_cancel)
next
  case False
  from t have "attr_or_empty b ''target'' = attr_or_empty a ''target''"
    by (simp add: attr_or_empty_def attrs_hardenRel_other)
  with False show ?thesis by (simp only: hardenRel_eq [of b] if_False)
qed

lemma hardenRel_sanitizeOne: "hardenRel (sanitizeOne a) = sanitizeOne a"
  by (rule hardenRel_fixed)
    (simp_all add: attrs_sanitizeOne_rel attrs_sanitizeOne_target attrs_hardenRel_other)

lemma sanitizeOne_twice:
  "sanitizeOne (sanitizeOne a) =
     (if isButtony a \<and> (isInvalidHref a \<or> hasOnclick a)
      then attachHandler (sanitizeOne a) else sanitizeOne a)"
proof -
  let ?b = "sanitizeOne a"
  have h: "hardenRel ?b = ?b" by (rule hardenRel_sanitizeOne)
  have bt: "isButtony ?b = isButtony a"
    by (rule isButtony_classList) (rule classList_sanitizeOne)
  have oc: "hasOnclick ?b = hasOnclick a"
    by (rule hasOnclick_cong)
      (simp add: sanitizeOne_cases attrs_attachHandler attrs_makeButtonLike attrs_setAttribute
        attrs_hardenRel_other)
  consider (button) "isButtony a" "isInvalidHref a \<or> hasOnclick a"
    | (plain) "\<not> isButtony a" "isInvalidHref a"
    | (kept) "\<not> isInvalidHref a" "isButtony a \<longrightarrow> \<not> hasOnclick a"
    by blast
  then show ?thesis
  proof cases
    case button
    then have b: "?b = attachHandler (makeButtonLike (hardenRel a))"
      by (simp add: sanitizeOne_cases)
    then have at: "attrs ?b ''href'' = Some ''#''" "attrs ?b ''role'' = Some ''button''"
      "attrs ?b ''tabindex'' = Some ''0''"
      by (simp_all add: attrs_attachHandler attrs_makeButtonLike)
    then have "isInvalidHref ?b" by (simp add: isInvalidHref_hash)
    then have "sanitizeOne ?b = attachHandler (makeButtonLike ?b)"
      using button bt h by (simp add: sanitizeOne_cases [of ?b])
    also have "makeButtonLike ?b = ?b" using at by (rule makeButtonLike_same)
    finally show ?thesis using button by simp
  next
    case plain
    then have b: "?b = setAttribute ''href'' ''#current'' (hardenRel a)"
      by (simp add: sanitizeOne_cases)
    then have "attrs ?b ''href'' = Some ''#current''" by (simp add: attrs_setAttribute)
    then have "\<not> isInvalidHref ?b" by (rule isInvalidHref_current)
    then have "sanitizeOne ?b = ?b"
      using plain bt h by (simp add: sanitizeOne_cases [of ?b])
    then show ?thesis using plain by simp
  next
    case kept
    then have b: "?b = hardenRel a"
      by (auto simp add: sanitizeOne_cases)
    then have "attrs ?b ''href'' = attrs a ''href''" by (simp add: attrs_hardenRel_other)
    then have "isInvalidHref ?b = isInvalidHref a" by (rule isInvalidHref_cong)
    then have "sanitizeOne ?b = ?b"
      using kept bt oc h by (auto simp add: sanitizeOne_cases [of ?b])
    then show ?thesis using kept by auto
  qed
qed

subsection \<open>What a click can do\<close>

lemma find_first_of_filter: "filter P xs = t # ts \<Longrightarrow> find P xs = Some t"
  by (induction xs) (auto split: if_splits)

lemma click_handler_first_match: "click_handler h a = first_match_dispatch h a"
  by (simp add: click_handler_def first_match_dispatch_def first_matching_tag_def
      priority_order_def matches_tag_def Let_def)

lemma first_matching_tag_classList:
  assumes "classList b = classList a"
  shows "first_matching_tag b = first_matching_tag a"
proof -
  from assms have "contains b = contains a" by (simp add: contains_def fun_eq_iff)
  then have "matches_tag b = matches_tag a" by (simp add: matches_tag_def fun_eq_iff)
  then show ?thesis by (simp only: first_matching_tag_def)
qed

lemma fst_branch_of: "fst (branch_of t h) = Returned"
  by (cases t)
    (simp_all add: darkmode_branch_def asideSwitch_branch_def consoleSwitch_branch_def
      bannerButton_branch_def commentBarrage_branch_def totop_branch_def randomPost_branch_def
      sitePage_branch_def catch_ignore_def)

lemma snd_call: "snd (call h f) = (if present h f then [Call f] else [])"
  by (simp add: call_def present_def split: ext_state.splits)

lemma branch_effects:
  assumes "e \<in> set (snd (branch_of t h))"
  shows "(\<exists>f. e = Call f) \<or> e = ScrollToSmooth \<or> e = ScrollToInstant
       \<or> (e = AssignLocationHref ''/archives/'' \<and> t = randomPost \<and> \<not> present h window_toRandomPost)"
  using assms
  by (cases t)
    (auto simp add: darkmode_branch_def asideSwitch_branch_def consoleSwitch_branch_def
      bannerButton_branch_def commentBarrage_branch_def totop_branch_def randomPost_branch_def
      sitePage_branch_def catch_ignore_def snd_call split: if_splits)

lemma click_handler_effects:
  assumes "e \<in> set (snd (click_handler h a))"
  shows "e = PreventDefault \<or> (\<exists>f. e = Call f) \<or> e = ScrollToSmooth \<or> e = ScrollToInstant
       \<or> (e = AssignLocationHref ''/archives/'' \<and> first_matching_tag a = Some randomPost
           \<and> \<not> present h window_toRandomPost)"
proof (cases "first_matching_tag a")
  case None
  with assms show ?thesis
    by (auto simp add: click_handler_first_match first_match_dispatch_def Let_def split: if_splits)
next
  case (Some t)
  with assms have "e = PreventDefault \<or> e \<in> set (snd (branch_of t h))"
    by (auto simp add: click_handler_first_match first_match_dispatch_def Let_def split: if_splits)
  with Some branch_effects [of e t h] show ?thesis by blast
qed

lemma set_concat_const:
  "set (concat (map (\<lambda>l. x) ls)) = (if ls = [] then {} else set x)"
  by (induction ls) auto

lemma dispatch_click_prevented:
  assumes "attrs a ''href'' = Some ''#''" and "ClickListener \<in> set (listeners a)"
  shows "set (dispatch_click h a) = set (snd (click_handler h a))"
proof -
  let ?ls = "filter (\<lambda>l. l = ClickListener) (listeners a)"
  from assms(2) have ne: "?ls \<noteq> []" by (simp add: filter_empty_conv)
  from assms(1) have "PreventDefault \<in> set (snd (click_handler h a))"
    by (simp add: click_handler_def Let_def attr_or_empty_def)
  with ne show ?thesis
    by (simp add: dispatch_click_def Let_def set_concat_const del: set_concat)
qed

section \<open>The claims\<close>

text \<open>
  Claim C1, as the code has it. The rewrite to a button is gated: it runs only for an
  anchor that is a rewrite candidate, that is, whose href is invalid or whose
  \<^verbatim>\<open>onclick\<close> is a non-empty string. For every such anchor with a class of
  \<^const>\<open>BUTTONY_CLASSES\<close>, after one call of \<^const>\<open>sanitizeOne\<close> the href is
  \<^verbatim>\<open>#\<close>, the role is \<^verbatim>\<open>button\<close> and the tabindex is \<^verbatim>\<open>0\<close>. A click on
  it then never follows the link (the default action is prevented), and the listener
  assigns \<^verbatim>\<open>location.href\<close> in one case only: the first matching tag is
  \<open>randomPost\<close> and \<^verbatim>\<open>window.toRandomPost\<close> is absent, where it assigns
  \<^verbatim>\<open>/archives/\<close>. Whatever the optional functions of the theme do when called is
  theirs.
\<close>

theorem button_like_rewrite:
  assumes "isButtony a" and "isInvalidHref a \<or> hasOnclick a"
  shows "attrs (sanitizeOne a) ''href'' = Some ''#''
       \<and> attrs (sanitizeOne a) ''role'' = Some ''button''
       \<and> attrs (sanitizeOne a) ''tabindex'' = Some ''0''
       \<and> set (dispatch_click h (sanitizeOne a))
           \<subseteq> {PreventDefault, ScrollToSmooth, ScrollToInstant} \<union> range Call
             \<union> (if first_matching_tag a = Some randomPost \<and> \<not> present h window_toRandomPost
                then {AssignLocationHref ''/archives/''} else {})"
proof -
  let ?b = "sanitizeOne a"
  from assms have b: "?b = attachHandler (makeButtonLike (hardenRel a))"
    by (simp add: sanitizeOne_cases)
  then have at: "attrs ?b ''href'' = Some ''#''" "attrs ?b ''role'' = Some ''button''"
    "attrs ?b ''tabindex'' = Some ''0''"
    by (simp_all add: attrs_attachHandler attrs_makeButtonLike)
  from b have "ClickListener \<in> set (listeners ?b)"
    by (simp add: listeners_attachHandler)
  with at(1) have d: "set (dispatch_click h ?b) = set (snd (click_handler h ?b))"
    by (rule dispatch_click_prevented)
  have t: "first_matching_tag ?b = first_matching_tag a"
    by (rule first_matching_tag_classList) (rule classList_sanitizeOne)
  have "e \<in> {PreventDefault, ScrollToSmooth, ScrollToInstant} \<union> range Call
             \<union> (if first_matching_tag a = Some randomPost \<and> \<not> present h window_toRandomPost
                then {AssignLocationHref ''/archives/''} else {})"
    if "e \<in> set (snd (click_handler h ?b))" for e
    using click_handler_effects [OF that] unfolding t by auto
  with d at show ?thesis by blast
qed

text \<open>At the random-post link of a menu, on a host whose \<^verbatim>\<open>toRandomPost\<close> is
  present: the click neither follows \<^verbatim>\<open>#\<close> nor assigns the fallback path.\<close>

theorem button_like_rewrite_witness:
  "isButtony ex_random_button \<and> isInvalidHref ex_random_button
   \<and> attrs (sanitizeOne ex_random_button) ''href'' = Some ''#''
   \<and> attrs (sanitizeOne ex_random_button) ''role'' = Some ''button''
   \<and> attrs (sanitizeOne ex_random_button) ''tabindex'' = Some ''0''
   \<and> FollowLink ''#'' \<notin> set (dispatch_click host_theme (sanitizeOne ex_random_button))
   \<and> AssignLocationHref ''/archives/''
        \<notin> set (dispatch_click host_theme (sanitizeOne ex_random_button))"
proof -
  have h1: "isButtony ex_random_button" by code_simp
  have h2: "isInvalidHref ex_random_button" by code_simp
  have p: "present host_theme window_toRandomPost" by code_simp
  from h2 have h3: "isInvalidHref ex_random_button \<or> hasOnclick ex_random_button" ..
  from button_like_rewrite [OF h1 h3, of host_theme] h1 h2 p show ?thesis
    by auto
qed

text \<open>A class of \<^const>\<open>BUTTONY_CLASSES\<close> alone is not enough: the site-page tab
  with a real link keeps its href and gets no role and no tabindex. And a click can
  navigate: on a host without \<^verbatim>\<open>toRandomPost\<close> the random-post link assigns
  \<^verbatim>\<open>/archives/\<close>.\<close>

theorem button_class_alone_counterexample:
  "isButtony ex_sitepage_link
   \<and> attrs (sanitizeOne ex_sitepage_link) ''href'' = Some ''/about/''
   \<and> attrs (sanitizeOne ex_sitepage_link) ''role'' = None
   \<and> attrs (sanitizeOne ex_sitepage_link) ''tabindex'' = None
   \<and> isButtony ex_random
   \<and> dispatch_click host_bare (sanitizeOne ex_random)
       = [PreventDefault, AssignLocationHref ''/archives/'']"
  by code_simp

text \<open>
  Claim C2. For every anchor whose href, trimmed and in lower case, is empty or in
  \<^const>\<open>INVALID_HREFS\<close> (a missing href reads as empty), and none of whose classes is
  in \<^const>\<open>BUTTONY_CLASSES\<close>, the href after \<^const>\<open>sanitizeOne\<close> is
  \<^verbatim>\<open>#current\<close>.
\<close>

theorem plain_invalid_href_current:
  assumes "rawHref a = [] \<or> rawHref a \<in> set INVALID_HREFS" and "\<not> isButtony a"
  shows "attrs (sanitizeOne a) ''href'' = Some ''#current''"
  using assms by (simp add: sanitizeOne_cases isInvalidHref_def attrs_setAttribute)

text \<open>At a navigation link whose href is a padded, mixed-case
  \<^verbatim>\<open>javascript:void(0);\<close>.\<close>

theorem plain_invalid_href_current_witness:
  "rawHref ex_plain_void \<in> set INVALID_HREFS \<and> \<not> isButtony ex_plain_void
   \<and> attrs (sanitizeOne ex_plain_void) ''href'' = Some ''#current''"
proof -
  have h1: "rawHref ex_plain_void \<in> set INVALID_HREFS" by code_simp
  have h2: "\<not> isButtony ex_plain_void" by code_simp
  from h1 have h3: "rawHref ex_plain_void = [] \<or> rawHref ex_plain_void \<in> set INVALID_HREFS" ..
  from plain_invalid_href_current [OF h3 h2] h1 h2 show ?thesis by blast
qed

text \<open>
  Claim C3, as the code has it. \<^const>\<open>hardenRel\<close> puts the old \<^verbatim>\<open>rel\<close> in lower
  case before it splits it. For every anchor whose target is \<^verbatim>\<open>_blank\<close> in any
  case, after \<^const>\<open>sanitizeOne\<close> the \<^verbatim>\<open>rel\<close> attribute is present, its tokens
  are the old tokens in lower case together with \<^verbatim>\<open>noopener\<close> and
  \<^verbatim>\<open>noreferrer\<close>, no token occurs twice, and a second call leaves \<^verbatim>\<open>rel\<close> as
  the first call wrote it.
\<close>

theorem blank_target_rel_hardened:
  assumes "toLowerCase (attr_or_empty a ''target'') = ''_blank''"
  shows "attrs (sanitizeOne a) ''rel'' \<noteq> None
       \<and> set (rel_tokens (attr_or_empty (sanitizeOne a) ''rel''))
           = toLowerCase ` set (rel_tokens (attr_or_empty a ''rel'')) \<union> {''noopener'', ''noreferrer''}
       \<and> distinct (rel_tokens (attr_or_empty (sanitizeOne a) ''rel''))
       \<and> attrs (sanitizeOne (sanitizeOne a)) ''rel'' = attrs (sanitizeOne a) ''rel''"
proof -
  from assms have r: "attrs (sanitizeOne a) ''rel'' = Some (hardened_rel (attr_or_empty a ''rel''))"
    by (simp add: attrs_sanitizeOne_rel hardenRel_eq attrs_setAttribute)
  then have v: "attr_or_empty (sanitizeOne a) ''rel'' = hardened_rel (attr_or_empty a ''rel'')"
    by (simp add: attr_or_empty_def)
  have s: "set (rel_tokens (hardened_rel (attr_or_empty a ''rel'')))
      = toLowerCase ` set (rel_tokens (attr_or_empty a ''rel'')) \<union> {''noopener'', ''noreferrer''}"
    by (simp only: set_hardened_tokens rel_tokens_toLowerCase set_map)
  have d: "distinct (rel_tokens (hardened_rel (attr_or_empty a ''rel'')))"
    by (rule distinct_hardened_tokens)
  have "attrs (sanitizeOne (sanitizeOne a)) ''rel'' = attrs (hardenRel (sanitizeOne a)) ''rel''"
    by (rule attrs_sanitizeOne_rel)
  then have i: "attrs (sanitizeOne (sanitizeOne a)) ''rel'' = attrs (sanitizeOne a) ''rel''"
    by (simp only: hardenRel_sanitizeOne)
  from r s d i show ?thesis by (simp only: v) simp
qed

text \<open>At a link with \<^verbatim>\<open>target="_BLANK"\<close> and \<^verbatim>\<open>rel="noopener"\<close>: the result
  is \<^verbatim>\<open>noopener noreferrer\<close>, with \<^verbatim>\<open>noopener\<close> once, and a second call keeps
  it.\<close>

theorem blank_target_rel_hardened_witness:
  "toLowerCase (attr_or_empty ex_blank_noopener ''target'') = ''_blank''
   \<and> attrs (sanitizeOne ex_blank_noopener) ''rel'' = Some ''noopener noreferrer''
   \<and> rel_tokens (attr_or_empty (sanitizeOne ex_blank_noopener) ''rel'') = [''noopener'', ''noreferrer'']
   \<and> distinct (rel_tokens (attr_or_empty (sanitizeOne ex_blank_noopener) ''rel''))
   \<and> attrs (sanitizeOne (sanitizeOne ex_blank_noopener)) ''rel'' = Some ''noopener noreferrer''"
proof -
  have h: "toLowerCase (attr_or_empty ex_blank_noopener ''target'') = ''_blank''" by code_simp
  have r: "attrs (sanitizeOne ex_blank_noopener) ''rel'' = Some ''noopener noreferrer''"
    by code_simp
  have t: "rel_tokens (attr_or_empty (sanitizeOne ex_blank_noopener) ''rel'') = [''noopener'', ''noreferrer'']"
    by code_simp
  from blank_target_rel_hardened [OF h] h r t show ?thesis by simp
qed

text \<open>The old tokens are not kept as written: \<^verbatim>\<open>rel="NoFollow"\<close> comes out as
  \<^verbatim>\<open>nofollow noopener noreferrer\<close>, which has no token \<^verbatim>\<open>NoFollow\<close>.\<close>

theorem nofollow_case_counterexample:
  "toLowerCase (attr_or_empty ex_blank_nofollow ''target'') = ''_blank''
   \<and> attrs ex_blank_nofollow ''rel'' = Some ''NoFollow''
   \<and> attrs (sanitizeOne ex_blank_nofollow) ''rel'' = Some ''nofollow noopener noreferrer''
   \<and> ''NoFollow'' \<notin> set (rel_tokens (attr_or_empty (sanitizeOne ex_blank_nofollow) ''rel''))
   \<and> set (rel_tokens (attr_or_empty (sanitizeOne ex_blank_nofollow) ''rel''))
       \<noteq> set (rel_tokens (attr_or_empty ex_blank_nofollow ''rel'')) \<union> {''noopener'', ''noreferrer''}"
proof -
  have a: "rel_tokens (attr_or_empty (sanitizeOne ex_blank_nofollow) ''rel'')
      = [''nofollow'', ''noopener'', ''noreferrer'']"
    by code_simp
  have b: "rel_tokens (attr_or_empty ex_blank_nofollow ''rel'') = [''NoFollow'']"
    by code_simp
  have c: "toLowerCase (attr_or_empty ex_blank_nofollow ''target'') = ''_blank''
     \<and> attrs ex_blank_nofollow ''rel'' = Some ''NoFollow''
     \<and> attrs (sanitizeOne ex_blank_nofollow) ''rel'' = Some ''nofollow noopener noreferrer''"
    by code_simp
  have d: "''NoFollow'' \<notin> set [''nofollow'', ''noopener'', ''noreferrer'']" by simp
  then have "set [''nofollow'', ''noopener'', ''noreferrer'']
      \<noteq> set [''NoFollow''] \<union> {''noopener'', ''noreferrer''}"
    by (metis UnI1 list.set_intros(1))
  with c d show ?thesis by (simp only: a b) simp
qed

text \<open>
  Claim C4, as the code has it. A missing href reads as the empty string and so counts
  as invalid. For every anchor with an \<^verbatim>\<open>onclick\<close> attribute and no class of
  \<^const>\<open>BUTTONY_CLASSES\<close>, \<^const>\<open>sanitizeOne\<close> keeps the \<^verbatim>\<open>onclick\<close>
  attribute as it is; it keeps the href as it is when the href is valid, and sets it to
  \<^verbatim>\<open>#current\<close> when the href is invalid, a missing href included.
\<close>

theorem onclick_plain_href:
  assumes "attrs a ''onclick'' \<noteq> None" and "\<not> isButtony a"
  shows "attrs (sanitizeOne a) ''onclick'' = attrs a ''onclick''
       \<and> attrs (sanitizeOne a) ''href''
           = (if isInvalidHref a then Some ''#current'' else attrs a ''href'')"
  using assms by (simp add: sanitizeOne_cases attrs_setAttribute attrs_hardenRel_other)

text \<open>At a link with a real href and an \<^verbatim>\<open>onclick\<close>: both stay.\<close>

theorem onclick_plain_href_witness:
  "attrs ex_onclick_link ''onclick'' \<noteq> None \<and> \<not> isButtony ex_onclick_link
   \<and> \<not> isInvalidHref ex_onclick_link
   \<and> attrs (sanitizeOne ex_onclick_link) ''onclick'' = Some ''track()''
   \<and> attrs (sanitizeOne ex_onclick_link) ''href'' = Some ''/posts/1''"
proof -
  have h1: "attrs ex_onclick_link ''onclick'' \<noteq> None" by code_simp
  have h2: "\<not> isButtony ex_onclick_link" by code_simp
  have v: "\<not> isInvalidHref ex_onclick_link" by code_simp
  have o: "attrs ex_onclick_link ''onclick'' = Some ''track()''
     \<and> attrs ex_onclick_link ''href'' = Some ''/posts/1''"
    by code_simp
  from onclick_plain_href [OF h1 h2] h1 h2 v o show ?thesis by simp
qed

text \<open>An anchor with an \<^verbatim>\<open>onclick\<close> and no href at all does not keep its href
  missing: it gets \<^verbatim>\<open>#current\<close>.\<close>

theorem onclick_absent_href_counterexample:
  "attrs ex_onclick_nohref ''onclick'' = Some ''go()''
   \<and> \<not> isButtony ex_onclick_nohref
   \<and> attrs ex_onclick_nohref ''href'' = None
   \<and> attrs (sanitizeOne ex_onclick_nohref) ''href'' = Some ''#current''"
  by code_simp

text \<open>
  Claim C5, as the code has it. A second pass over the document leaves every attribute
  and every class list of every anchor as the first pass left them. The listeners are not
  left alone: \<^const>\<open>attachHandler\<close> has no record of what it added before, so the
  second pass adds one more click listener and one more keydown listener to every anchor
  that has a class of \<^const>\<open>BUTTONY_CLASSES\<close> and is a rewrite candidate.
\<close>

theorem run_pass_twice:
  "map attrs (run_pass (run_pass doc)) = map attrs (run_pass doc)
   \<and> map classList (run_pass (run_pass doc)) = map classList (run_pass doc)
   \<and> map listeners (run_pass (run_pass doc))
       = map (\<lambda>a. listeners (sanitizeOne a)
                  @ (if isButtony a \<and> (isInvalidHref a \<or> hasOnclick a)
                     then [ClickListener, KeydownListener] else []))
           doc"
  by (simp add: run_pass_def sanitizeOne_twice attrs_attachHandler classList_attachHandler
      listeners_attachHandler)

text \<open>At a document of a dark-mode switch and an ordinary link.\<close>

theorem run_pass_twice_witness:
  "map (\<lambda>a. attrs a ''href'') (run_pass (run_pass [ex_darkmode, ex_post_link]))
     = [Some ''#'', Some ''/posts/1'']
   \<and> map listeners (run_pass (run_pass [ex_darkmode, ex_post_link]))
     = [[ClickListener, KeydownListener, ClickListener, KeydownListener], []]"
proof -
  have a: "map attrs (run_pass [ex_darkmode, ex_post_link]) = [attrs (sanitizeOne ex_darkmode), attrs (sanitizeOne ex_post_link)]"
    by (simp add: run_pass_def)
  have h: "attrs (sanitizeOne ex_darkmode) ''href'' = Some ''#''
      \<and> attrs (sanitizeOne ex_post_link) ''href'' = Some ''/posts/1''"
    by code_simp
  have l: "map (\<lambda>a. listeners (sanitizeOne a)
                  @ (if isButtony a \<and> (isInvalidHref a \<or> hasOnclick a)
                     then [ClickListener, KeydownListener] else []))
           [ex_darkmode, ex_post_link]
       = [[ClickListener, KeydownListener, ClickListener, KeydownListener], []]"
    by code_simp
  have "map (\<lambda>a. attrs a ''href'') (run_pass (run_pass [ex_darkmode, ex_post_link]))
      = map (\<lambda>f. f ''href'') (map attrs (run_pass (run_pass [ex_darkmode, ex_post_link])))"
    by (simp add: comp_def)
  with run_pass_twice [of "[ex_darkmode, ex_post_link]"] a h l show ?thesis
    by simp
qed

text \<open>The second pass can be observed: after it the dark-mode switch carries two
  click listeners, and one click calls \<^verbatim>\<open>navFn.switchDarkMode\<close> twice where after
  one pass it calls it once.\<close>

theorem second_pass_rebinds_counterexample:
  "map listeners (run_pass [ex_darkmode]) = [[ClickListener, KeydownListener]]
   \<and> map listeners (run_pass (run_pass [ex_darkmode]))
       = [[ClickListener, KeydownListener, ClickListener, KeydownListener]]
   \<and> map (dispatch_click host_theme) (run_pass [ex_darkmode])
       = [[PreventDefault, Call navFn_switchDarkMode]]
   \<and> map (dispatch_click host_theme) (run_pass (run_pass [ex_darkmode]))
       = [[PreventDefault, Call navFn_switchDarkMode, PreventDefault, Call navFn_switchDarkMode]]"
  by code_simp

text \<open>
  Claim C6. Let \<open>t\<close> be the first tag, in the order darkmode, asideSwitch,
  consoleSwitch, bannerButton, commentBarrage, totop, randomPost, sitePage, that the class
  list of the anchor matches, and \<open>ts\<close> the later tags it matches as well. One run of
  the click listener is the optional \<^verbatim>\<open>preventDefault\<close> followed by the branch of
  \<open>t\<close> and nothing else: no branch of a tag in \<open>ts\<close> takes part.
\<close>

theorem first_matching_tag_wins:
  assumes "matching_tags a = t # ts"
  shows "click_handler h a
       = (fst (branch_of t h),
          (if attr_or_empty a ''href'' = ''#'' then [PreventDefault] else []) @ snd (branch_of t h))"
proof -
  from assms have "first_matching_tag a = Some t"
    unfolding matching_tags_def first_matching_tag_def by (rule find_first_of_filter)
  then show ?thesis
    by (simp add: click_handler_first_match first_match_dispatch_def Let_def)
qed

text \<open>At an anchor that is both a back-to-top button and a dark-mode switch: the
  dark-mode branch runs and nothing scrolls.\<close>

theorem first_matching_tag_wins_witness:
  "matching_tags ex_top_dark = [darkmode, totop]
   \<and> click_handler host_theme ex_top_dark = (Returned, [PreventDefault, Call navFn_switchDarkMode])"
proof -
  have m: "matching_tags ex_top_dark = [darkmode, totop]" by code_simp
  have b: "branch_of darkmode host_theme = (Returned, [Call navFn_switchDarkMode])" by code_simp
  have p: "attr_or_empty ex_top_dark ''href'' = ''#''" by code_simp
  from first_matching_tag_wins [OF m, of host_theme] m b p show ?thesis by simp
qed

text \<open>
  Claim C7. For every anchor and every host, so for each optional function of the theme
  absent, throwing or succeeding, the click listener returns and lets no exception out.
\<close>

theorem click_handler_never_throws: "fst (click_handler h a) = Returned"
  by (simp add: click_handler_first_match first_match_dispatch_def Let_def fst_branch_of
      split: option.splits)

text \<open>At the random-post link, on a host whose \<^verbatim>\<open>toRandomPost\<close> throws.\<close>

theorem click_handler_never_throws_witness:
  "ext host_theme window_toRandomPost = Throwing
   \<and> fst (click_handler host_theme (sanitizeOne ex_random_button)) = Returned"
proof -
  have "ext host_theme window_toRandomPost = Throwing" by code_simp
  with click_handler_never_throws [of host_theme "sanitizeOne ex_random_button"]
  show ?thesis by simp
qed

text \<open>
  Claim C8, as the code has it. The assignment to \<^verbatim>\<open>location.href\<close> stands inside
  the same \<^verbatim>\<open>try\<close> block as the call. For every anchor whose first matching tag is
  \<open>randomPost\<close> (either spelling of the class): when \<^verbatim>\<open>window.toRandomPost\<close> is
  present it is called and nothing is assigned; when it is absent the listener assigns
  \<^verbatim>\<open>/archives/\<close> to \<^verbatim>\<open>location.href\<close>; and in every case the listener returns,
  whether the call throws or the assignment does.
\<close>

theorem randomPost_click:
  assumes "first_matching_tag a = Some randomPost"
  shows "click_handler h a
       = (Returned,
          (if attr_or_empty a ''href'' = ''#'' then [PreventDefault] else [])
          @ (if present h window_toRandomPost then [Call window_toRandomPost]
             else [AssignLocationHref ''/archives/'']))"
  using assms
  by (simp add: click_handler_first_match first_match_dispatch_def Let_def randomPost_branch_def
      catch_ignore_def snd_call)

text \<open>At the \<^verbatim>\<open>randomPost_button\<close> spelling, on a host whose
  \<^verbatim>\<open>toRandomPost\<close> is present and throws: it is called, nothing is assigned, and the
  listener returns.\<close>

theorem randomPost_click_witness:
  "first_matching_tag (sanitizeOne ex_random_button) = Some randomPost
   \<and> ext host_theme window_toRandomPost = Throwing
   \<and> click_handler host_theme (sanitizeOne ex_random_button)
       = (Returned, [PreventDefault, Call window_toRandomPost])"
proof -
  have m: "first_matching_tag (sanitizeOne ex_random_button) = Some randomPost" by code_simp
  have p: "ext host_theme window_toRandomPost = Throwing" by code_simp
  have q: "attr_or_empty (sanitizeOne ex_random_button) ''href'' = ''#''" by code_simp
  from randomPost_click [OF m, of host_theme] m p q show ?thesis by (simp add: present_def)
qed

text \<open>On a host without \<^verbatim>\<open>toRandomPost\<close> where the assignment to
  \<^verbatim>\<open>location.href\<close> throws, the listener still returns: the failure of the fallback
  navigation is swallowed as well.\<close>

theorem fallback_navigation_swallowed_counterexample:
  "first_matching_tag (sanitizeOne ex_random) = Some randomPost
   \<and> ext host_no_navigation window_toRandomPost = Absent
   \<and> \<not> location_assign_ok host_no_navigation
   \<and> click_handler host_no_navigation (sanitizeOne ex_random)
       = (Returned, [PreventDefault, AssignLocationHref ''/archives/''])"
  by code_simp

text \<open>
  Claim C9. For every anchor whose href, trimmed and in lower case, is neither empty nor
  in \<^const>\<open>INVALID_HREFS\<close>, and which has no \<^verbatim>\<open>onclick\<close> attribute,
  \<^const>\<open>sanitizeOne\<close> does what \<^const>\<open>hardenRel\<close> alone does: the href is
  unchanged and no listener is added.
\<close>

theorem ordinary_no_rewrite:
  assumes "rawHref a \<noteq> []" and "rawHref a \<notin> set INVALID_HREFS" and "attrs a ''onclick'' = None"
  shows "sanitizeOne a = hardenRel a
       \<and> attrs (sanitizeOne a) ''href'' = attrs a ''href''
       \<and> listeners (sanitizeOne a) = listeners a"
  using assms
  by (simp add: sanitizeOne_cases isInvalidHref_def hasOnclick_def attrs_hardenRel_other
      listeners_hardenRel)

text \<open>At \<^verbatim>\<open><a href="/posts/1">\<close>: the href stays, no \<^verbatim>\<open>rel\<close> appears and no
  listener is added.\<close>

theorem ordinary_no_rewrite_witness:
  "rawHref ex_post_link \<noteq> [] \<and> rawHref ex_post_link \<notin> set INVALID_HREFS
   \<and> attrs ex_post_link ''onclick'' = None
   \<and> attrs (sanitizeOne ex_post_link) ''href'' = Some ''/posts/1''
   \<and> attrs (sanitizeOne ex_post_link) ''rel'' = None
   \<and> listeners (sanitizeOne ex_post_link) = []"
proof -
  have h1: "rawHref ex_post_link \<noteq> []" by code_simp
  have h2: "rawHref ex_post_link \<notin> set INVALID_HREFS" by code_simp
  have h3: "attrs ex_post_link ''onclick'' = None" by code_simp
  have v: "attrs ex_post_link ''href'' = Some ''/posts/1'' \<and> listeners ex_post_link = []
      \<and> attrs (hardenRel ex_post_link) ''rel'' = None"
    by code_simp
  from ordinary_no_rewrite [OF h1 h2 h3]
  have c: "sanitizeOne ex_post_link = hardenRel ex_post_link"
    and d: "attrs (sanitizeOne ex_post_link) ''href'' = attrs ex_post_link ''href''"
    and e: "listeners (sanitizeOne ex_post_link) = listeners ex_post_link"
    by blast+
  from c v have "attrs (sanitizeOne ex_post_link) ''rel'' = None" by simp
  with d e h1 h2 h3 v show ?thesis by simp
qed

text \<open>
  Claim C10. For every anchor, of whatever category, the \<^verbatim>\<open>onclick\<close> attribute
  after \<^const>\<open>sanitizeOne\<close> is what it was before: present with the same value, or
  missing as before.
\<close>

theorem sanitizeOne_keeps_onclick:
  "attrs (sanitizeOne a) ''onclick'' = attrs a ''onclick''"
  by (simp add: sanitizeOne_cases attrs_attachHandler attrs_makeButtonLike attrs_setAttribute
      attrs_hardenRel_other)

text \<open>At the anchor with \<^verbatim>\<open>onclick="go()"\<close> and no href.\<close>

theorem sanitizeOne_keeps_onclick_witness:
  "attrs (sanitizeOne ex_onclick_nohref) ''onclick'' = Some ''go()''"
proof -
  have "attrs ex_onclick_nohref ''onclick'' = Some ''go()''" by code_simp
  with sanitizeOne_keeps_onclick [of ex_onclick_nohref] show ?thesis by simp
qed

end
